theory Spec2Isabelle
  imports Complex_Main "HOL-Library.Multiset"
begin

section \<open>Python values, exceptions and the process environment\<close>

text \<open>
  The service is three Python files: \<^verbatim>\<open>config.py\<close> (class \<^verbatim>\<open>Config\<close>, whose body runs
  once when the module is imported), \<^verbatim>\<open>server/routes/logical_route.py\<close> (the handler
  \<^verbatim>\<open>GetDirectory.get\<close> of \<^verbatim>\<open>GET /api/meta\<close>) and the wiring in \<^verbatim>\<open>main.py\<close> and
  \<^verbatim>\<open>server/__init__.py\<close>.

  Exceptions are values: a function that can raise returns \<open>py_error + 'a\<close>, with
  \<open>Inl\<close> the exception. The operating system's errors are the subclasses of
  \<^verbatim>\<open>OSError\<close> that \<^verbatim>\<open>os.listdir\<close> and \<^verbatim>\<open>os.stat\<close> raise.
\<close>

datatype os_error = FileNotFoundError | NotADirectoryError | PermissionError | OtherOSError

datatype py_error =
    IndexError
  | OSError os_error
  | DatetimeRangeError

text \<open>
  \<^verbatim>\<open>os.environ\<close> is a dictionary from names to strings. \<^verbatim>\<open>os.environ.get(k, default)\<close>
  returns the default object itself when the key is missing, and the default of
  \<^verbatim>\<open>config.py\<close> is the boolean \<^verbatim>\<open>False\<close>, so the result is a string or a boolean.
\<close>

type_synonym environ = "string \<rightharpoonup> string"

datatype py_value = PyStr string | PyBool bool

definition environ_get :: "environ \<Rightarrow> string \<Rightarrow> py_value \<Rightarrow> py_value" where
  "environ_get env k dflt = (case env k of None \<Rightarrow> dflt | Some v \<Rightarrow> PyStr v)"

definition getenv :: "environ \<Rightarrow> string \<Rightarrow> string \<Rightarrow> string" where
  "getenv env k dflt = (case env k of None \<Rightarrow> dflt | Some v \<Rightarrow> v)"

subsection \<open>config.py\<close>

text \<open>
  \<^verbatim>\<open>
  class Config(ServerConfig):
      os.environ["DIRECTORY"] = "./"
      DEBUG = os.environ.get("PROJECT_DEBUG", False) == "True"
  \<close>
  The class body is executed once, at import. It writes the process environment (line 13)
  and then computes the class attribute \<open>DEBUG\<close> (line 14), so \<open>Config\<close> takes the
  environment of the process and returns the environment it leaves together with the
  attributes. Python's \<^verbatim>\<open>==\<close> between \<^verbatim>\<open>False\<close> and a string is false, which is
  the inequality of \<open>PyBool\<close> and \<open>PyStr\<close>. The base class \<^verbatim>\<open>ServerConfig\<close> is
  declared in \<^verbatim>\<open>server/types.py\<close>; the record holds the one attribute that the class
  body of \<^verbatim>\<open>Config\<close> computes.
\<close>

record ServerConfig =
  DEBUG :: bool

definition Config :: "environ \<Rightarrow> environ \<times> ServerConfig" where
  "Config env =
     (let env1 = env(''DIRECTORY'' \<mapsto> ''./'');
          debug = (environ_get env1 ''PROJECT_DEBUG'' (PyBool False) = PyStr ''True'')
      in (env1, \<lparr>DEBUG = debug\<rparr>))"

section \<open>The filesystem as the handler sees it\<close>

text \<open>
  The handler reaches the filesystem through three library calls: \<^verbatim>\<open>os.listdir\<close>,
  \<^verbatim>\<open>os.path.getctime\<close> and \<^verbatim>\<open>os.path.isfile\<close>. The last two are both
  \<^verbatim>\<open>os.stat\<close> underneath (\<^verbatim>\<open>getctime\<close> returns \<^verbatim>\<open>os.stat(p).st_ctime\<close> and lets the
  error through; \<^verbatim>\<open>isfile\<close> catches it and answers \<^verbatim>\<open>False\<close>), so a filesystem is the
  pair of what \<^verbatim>\<open>os.listdir\<close> and \<^verbatim>\<open>os.stat\<close> answer for each path. \<^verbatim>\<open>os.stat\<close>
  follows symbolic links: a link to a regular file is a regular file, and a dangling
  link is listed by its directory while \<^verbatim>\<open>os.stat\<close> fails on it.

  \<open>st_ctime\<close> is a Python float; every finite float is a rational number, and
  \<^verbatim>\<open>int(x)\<close> truncates towards zero.
\<close>

datatype file_kind = Regular | Directory | Special

record stat_result =
  st_mode :: file_kind
  st_ctime :: rat

record filesystem =
  os_listdir :: "string \<Rightarrow> os_error + string list"
  os_stat :: "string \<Rightarrow> os_error + stat_result"

definition getctime :: "filesystem \<Rightarrow> string \<Rightarrow> os_error + rat" where
  "getctime fs p = (case os_stat fs p of Inl e \<Rightarrow> Inl e | Inr st \<Rightarrow> Inr (st_ctime st))"

definition isfile :: "filesystem \<Rightarrow> string \<Rightarrow> bool" where
  "isfile fs p = (case os_stat fs p of Inl e \<Rightarrow> False | Inr st \<Rightarrow> st_mode st = Regular)"

definition py_int :: "rat \<Rightarrow> int" where
  "py_int x = (if 0 \<le> x then \<lfloor>x\<rfloor> else \<lceil>x\<rceil>)"

section \<open>Library functions of the handler\<close>

subsection \<open>os.path.splitext\<close>

text \<open>
  CPython's \<^verbatim>\<open>genericpath._splitext(p, sep, altsep, extsep)\<close>, called by
  \<^verbatim>\<open>posixpath.splitext\<close> with \<^verbatim>\<open>sep = '/'\<close>, no \<^verbatim>\<open>altsep\<close> and \<^verbatim>\<open>extsep = '.'\<close>:
  \<^verbatim>\<open>
  sepIndex = p.rfind(sep)
  dotIndex = p.rfind(extsep)
  if dotIndex > sepIndex:
      # skip all leading dots
      filenameIndex = sepIndex + 1
      while filenameIndex < dotIndex:
          if p[filenameIndex:filenameIndex+1] != extsep:
              return p[:dotIndex], p[dotIndex:]
          filenameIndex += 1
  return p, p[:0]
  \<close>
  \<^verbatim>\<open>rfind\<close> answers the last index of the character, or \<open>-1\<close>.
\<close>

fun rfind_from :: "string \<Rightarrow> char \<Rightarrow> int \<Rightarrow> int \<Rightarrow> int" where
  "rfind_from [] c i found = found"
| "rfind_from (x # xs) c i found = rfind_from xs c (i + 1) (if x = c then i else found)"

definition rfind :: "string \<Rightarrow> char \<Rightarrow> int" where
  "rfind p c = rfind_from p c 0 (- 1)"

function skip_leading_dots :: "string \<Rightarrow> int \<Rightarrow> int \<Rightarrow> string \<times> string" where
  "skip_leading_dots p filenameIndex dotIndex =
     (if filenameIndex < dotIndex then
        (if take 1 (drop (nat filenameIndex) p) \<noteq> ''.''
         then (take (nat dotIndex) p, drop (nat dotIndex) p)
         else skip_leading_dots p (filenameIndex + 1) dotIndex)
      else (p, []))"
  by pat_completeness auto
termination
  by (relation "measure (\<lambda>(p, i, d). nat (d - i))") auto

declare skip_leading_dots.simps [simp del]

definition splitext :: "string \<Rightarrow> string \<times> string" where
  "splitext p =
     (let sepIndex = rfind p CHR ''/'';
          dotIndex = rfind p CHR ''.''
      in if dotIndex > sepIndex then skip_leading_dots p (sepIndex + 1) dotIndex
         else (p, []))"

text \<open>
  The extension as the specification words it: the substring of a filename beginning at
  its last period, inclusive, and the empty string when the filename has no period.
\<close>

definition extension_spec :: "string \<Rightarrow> string" where
  "extension_spec f =
     (if CHR ''.'' \<in> set f
      then CHR ''.'' # rev (takeWhile (\<lambda>c. c \<noteq> CHR ''.'') (rev f))
      else [])"

subsection \<open>datetime.utcfromtimestamp(ts).strftime('%Y-%m-%d %H:%M:%S')\<close>

text \<open>
  \<^verbatim>\<open>datetime\<close> holds the years 1 to 9999 and raises for a timestamp outside them (which
  exception depends on how far outside; the model has one name for them). Inside the
  range the date is the proleptic Gregorian date of the day \<open>ts div 86400\<close> after
  1970-01-01, every field zero-padded.
\<close>

definition digit_char :: "int \<Rightarrow> char" where
  "digit_char n = ''0123456789'' ! nat n"

definition digits2 :: "int \<Rightarrow> string" where
  "digits2 n = [digit_char (n div 10), digit_char (n mod 10)]"

definition civil_from_days :: "int \<Rightarrow> int \<times> int \<times> int" where
  "civil_from_days days =
     (let z = days + 719468;
          era = z div 146097;
          doe = z - era * 146097;
          yoe = (doe - doe div 1460 + doe div 36524 - doe div 146096) div 365;
          doy = doe - (365 * yoe + yoe div 4 - yoe div 100);
          mp = (5 * doy + 2) div 153;
          d = doy - (153 * mp + 2) div 5 + 1;
          m = (if mp < 10 then mp + 3 else mp - 9);
          y = yoe + era * 400 + (if m \<le> 2 then 1 else 0)
      in (y, m, d))"

definition utcfromtimestamp_strftime :: "int \<Rightarrow> py_error + string" where
  "utcfromtimestamp_strftime ts =
     (if ts < - 62135596800 \<or> 253402300799 < ts then Inl DatetimeRangeError
      else
        (let (y, m, d) = civil_from_days (ts div 86400);
             s = ts mod 86400
         in Inr (digits2 (y div 100) @ digits2 (y mod 100) @ ''-'' @ digits2 m @ ''-'' @ digits2 d
                 @ '' '' @ digits2 (s div 3600) @ '':'' @ digits2 (s mod 3600 div 60)
                 @ '':'' @ digits2 (s mod 60))))"

section \<open>The handler of GET /api/meta\<close>

text \<open>
  \<^verbatim>\<open>
  def get(self):
      resp = {"data": []}
      directory = os.getenv("DIRECTORY", "./")
      if directory[-1] != "/":
          directory += "/"
      for f in os.listdir(directory):
          ts = int(os.path.getctime(directory + f))
          t = datetime.utcfromtimestamp(ts).strftime('%Y-%m-%d %H:%M:%S')
          if os.path.isfile(directory + f):
              resp["data"].append({
                  "name": f,
                  "type": os.path.splitext(f)[1],
                  "time": t,
              })
      return resp, 200
  \<close>
  The handler catches nothing, so each call that raises ends it with that exception.
  It only reads the environment and the filesystem and builds \<open>resp\<close> afresh, so it
  is a function of the two. Besides its result the model returns the calls it made to
  the filesystem, in order, so that which paths were touched can be stated.
\<close>

record FileEntry =
  name :: string
  type :: string
  time :: string

record MetaResponse =
  data :: "FileEntry list"

datatype fs_call = Listdir string | Getctime string | Isfile string

text \<open>Lines 15 and 16. \<^verbatim>\<open>directory[-1]\<close> raises \<^verbatim>\<open>IndexError\<close> on the empty string.\<close>

definition directory_with_sep :: "string \<Rightarrow> py_error + string" where
  "directory_with_sep directory =
     (if directory = [] then Inl IndexError
      else if last directory \<noteq> CHR ''/'' then Inr (directory @ ''/'')
      else Inr directory)"

text \<open>Lines 18 and 19: the timestamp of one entry, read and formatted.\<close>

definition entry_time :: "filesystem \<Rightarrow> string \<Rightarrow> py_error + string" where
  "entry_time fs p =
     (case getctime fs p of
        Inl e \<Rightarrow> Inl (OSError e)
      | Inr c \<Rightarrow> utcfromtimestamp_strftime (py_int c))"

text \<open>Lines 21 to 25: the dictionary appended for the entry \<open>f\<close>.\<close>

definition file_entry :: "string \<Rightarrow> string \<Rightarrow> FileEntry" where
  "file_entry f t = \<lparr>name = f, type = snd (splitext f), time = t\<rparr>"

text \<open>
  Lines 17 to 25, the loop over the names \<^verbatim>\<open>os.listdir\<close> returned: \<open>acc\<close> is
  \<^verbatim>\<open>resp["data"]\<close> so far and \<open>tr\<close> the calls so far.
\<close>

fun list_loop ::
  "filesystem \<Rightarrow> string \<Rightarrow> string list \<Rightarrow> FileEntry list \<Rightarrow> fs_call list
     \<Rightarrow> (py_error + FileEntry list) \<times> fs_call list" where
  "list_loop fs directory [] acc tr = (Inr acc, tr)"
| "list_loop fs directory (f # rest) acc tr =
     (case entry_time fs (directory @ f) of
        Inl e \<Rightarrow> (Inl e, tr @ [Getctime (directory @ f)])
      | Inr t \<Rightarrow>
          (if isfile fs (directory @ f)
           then list_loop fs directory rest (acc @ [file_entry f t])
                  (tr @ [Getctime (directory @ f), Isfile (directory @ f)])
           else list_loop fs directory rest acc
                  (tr @ [Getctime (directory @ f), Isfile (directory @ f)])))"

definition get :: "environ \<Rightarrow> filesystem \<Rightarrow> (py_error + MetaResponse \<times> nat) \<times> fs_call list" where
  "get env fs =
     (case directory_with_sep (getenv env ''DIRECTORY'' ''./'') of
        Inl e \<Rightarrow> (Inl e, [])
      | Inr directory \<Rightarrow>
          (case os_listdir fs directory of
             Inl e \<Rightarrow> (Inl (OSError e), [Listdir directory])
           | Inr names \<Rightarrow>
               (case list_loop fs directory names [] [Listdir directory] of
                  (Inl e, tr) \<Rightarrow> (Inl e, tr)
                | (Inr d, tr) \<Rightarrow> (Inr (\<lparr>data = d\<rparr>, 200), tr))))"

section \<open>Example filesystems\<close>

text \<open>
  A filesystem given by two tables: the names in each directory, and what \<^verbatim>\<open>os.stat\<close>
  answers for each path. A path in neither table does not exist.
\<close>

definition fs_of :: "(string \<times> string list) list \<Rightarrow> (string \<times> stat_result) list \<Rightarrow> filesystem" where
  "fs_of dirs nodes =
     \<lparr>os_listdir = (\<lambda>p. case map_of dirs p of None \<Rightarrow> Inl FileNotFoundError | Some ns \<Rightarrow> Inr ns),
      os_stat = (\<lambda>p. case map_of nodes p of None \<Rightarrow> Inl FileNotFoundError | Some st \<Rightarrow> Inr st)\<rparr>"

text \<open>
  The working directory holds two files and a subdirectory; \<^verbatim>\<open>/srv/data\<close> holds one
  file.
\<close>

definition fs_home :: filesystem where
  "fs_home = fs_of
     [(''./'', [''report.tar.gz'', ''sub'', ''README'']),
      (''/srv/data/'', [''b.txt''])]
     [(''./report.tar.gz'', \<lparr>st_mode = Regular, st_ctime = 1700000000\<rparr>),
      (''./sub'', \<lparr>st_mode = Directory, st_ctime = 951782400\<rparr>),
      (''./README'', \<lparr>st_mode = Regular, st_ctime = 0\<rparr>),
      (''/srv/data/b.txt'', \<lparr>st_mode = Regular, st_ctime = 86399\<rparr>)]"

text \<open>The same directories, enumerated in another order.\<close>

definition fs_home_reordered :: filesystem where
  "fs_home_reordered = fs_of
     [(''./'', [''README'', ''report.tar.gz'', ''sub'']),
      (''/srv/data/'', [''b.txt''])]
     [(''./report.tar.gz'', \<lparr>st_mode = Regular, st_ctime = 1700000000\<rparr>),
      (''./sub'', \<lparr>st_mode = Directory, st_ctime = 951782400\<rparr>),
      (''./README'', \<lparr>st_mode = Regular, st_ctime = 0\<rparr>),
      (''/srv/data/b.txt'', \<lparr>st_mode = Regular, st_ctime = 86399\<rparr>)]"

text \<open>A directory with one file and a dangling symbolic link \<^verbatim>\<open>ghost\<close>.\<close>

definition fs_dangling :: filesystem where
  "fs_dangling = fs_of
     [(''./'', [''a.txt'', ''ghost''])]
     [(''./a.txt'', \<lparr>st_mode = Regular, st_ctime = 1700000000\<rparr>)]"

text \<open>A directory whose only file is a dotfile.\<close>

definition fs_dotfile :: filesystem where
  "fs_dotfile = fs_of
     [(''./'', [''.bashrc''])]
     [(''./.bashrc'', \<lparr>st_mode = Regular, st_ctime = 0\<rparr>)]"

section \<open>Facts about the library functions\<close>

text \<open>
  \<^verbatim>\<open>rfind\<close> answers \<open>-1\<close> for a character that does not occur and the position of the
  last occurrence otherwise.
\<close>

lemma rfind_from_absent: "c \<notin> set xs \<Longrightarrow> rfind_from xs c i found = found"
  by (induction xs arbitrary: i found) auto

lemma rfind_from_last:
  "c \<notin> set b \<Longrightarrow> rfind_from (a @ c # b) c i found = i + int (length a)"
  by (induction a arbitrary: i found) (auto simp: rfind_from_absent)

lemma rfind_absent: "c \<notin> set p \<Longrightarrow> rfind p c = - 1"
  by (simp add: rfind_def rfind_from_absent)

lemma rfind_last: "c \<notin> set b \<Longrightarrow> rfind (a @ c # b) c = int (length a)"
  by (simp add: rfind_def rfind_from_last)

lemma split_last_occurrence:
  "c \<in> set p \<Longrightarrow> \<exists>a b. p = a @ c # b \<and> c \<notin> set b"
  by (metis split_list_last)

text \<open>
  The loop of \<^verbatim>\<open>_splitext\<close> over the characters before the last period: it gives up
  the extension exactly when all of them are periods.
\<close>

lemma skip_leading_dots_char:
  "0 \<le> i \<Longrightarrow> i \<le> int (length a) \<Longrightarrow>
   skip_leading_dots (a @ CHR ''.'' # b) i (int (length a)) =
     (if \<forall>c\<in>set (drop (nat i) a). c = CHR ''.'' then (a @ CHR ''.'' # b, [])
      else (a, CHR ''.'' # b))"
proof (induction "nat (int (length a) - i)" arbitrary: i)
  case 0
  then have "i = int (length a)" by simp
  then show ?case by (simp add: skip_leading_dots.simps)
next
  case (Suc k)
  then have lt: "i < int (length a)" and ni: "nat i < length a" by auto
  have k: "k = nat (int (length a) - (i + 1))" using Suc.hyps(2) by simp
  have step: "drop (nat i) a = a ! nat i # drop (nat (i + 1)) a"
    using ni Suc.prems(1) by (simp add: Cons_nth_drop_Suc nat_add_distrib)
  have hd1: "take 1 (drop (nat i) (a @ CHR ''.'' # b)) = [a ! nat i]"
    using ni by (simp add: step)
  show ?case
  proof (cases "a ! nat i = CHR ''.''")
    case True
    have "skip_leading_dots (a @ CHR ''.'' # b) i (int (length a)) =
          skip_leading_dots (a @ CHR ''.'' # b) (i + 1) (int (length a))"
      using lt hd1 True by (subst skip_leading_dots.simps) simp
    also have "\<dots> = (if \<forall>c\<in>set (drop (nat (i + 1)) a). c = CHR ''.'' then (a @ CHR ''.'' # b, [])
      else (a, CHR ''.'' # b))"
      using Suc.hyps(1) [OF k] Suc.prems lt by simp
    finally show ?thesis using True by (simp add: step)
  next
    case False
    have "skip_leading_dots (a @ CHR ''.'' # b) i (int (length a)) = (a, CHR ''.'' # b)"
      using lt hd1 False by (subst skip_leading_dots.simps) simp
    then show ?thesis using False by (simp add: step)
  qed
qed

lemma dropWhile_dots_has_dot:
  assumes b: "CHR ''.'' \<notin> set b"
  shows "(CHR ''.'' \<in> set (dropWhile (\<lambda>c. c = CHR ''.'') (a @ CHR ''.'' # b))) =
   (\<not> (\<forall>c\<in>set a. c = CHR ''.''))"
proof (cases "\<forall>c\<in>set a. c = CHR ''.''")
  case True
  have "dropWhile (\<lambda>c. c = CHR ''.'') (a @ CHR ''.'' # b) = dropWhile (\<lambda>c. c = CHR ''.'') b"
    using True by (simp add: dropWhile_append2)
  moreover have "CHR ''.'' \<notin> set (dropWhile (\<lambda>c. c = CHR ''.'') b)"
    using b by (auto dest: set_dropWhileD)
  ultimately show ?thesis using True by simp
next
  case False
  then obtain x where x: "x \<in> set a" "x \<noteq> CHR ''.''" by auto
  then have "dropWhile (\<lambda>c. c = CHR ''.'') (a @ CHR ''.'' # b) =
        dropWhile (\<lambda>c. c = CHR ''.'') a @ CHR ''.'' # b"
    by (simp add: dropWhile_append1)
  then show ?thesis using False by simp
qed

lemma extension_spec_last:
  assumes b: "CHR ''.'' \<notin> set b"
  shows "extension_spec (a @ CHR ''.'' # b) = CHR ''.'' # b"
proof -
  have "takeWhile (\<lambda>c. c \<noteq> CHR ''.'') (rev b @ CHR ''.'' # rev a) =
        rev b @ takeWhile (\<lambda>c. c \<noteq> CHR ''.'') (CHR ''.'' # rev a)"
    by (rule takeWhile_append2) (use b in auto)
  then show ?thesis by (simp add: extension_spec_def)
qed

lemma splitext_nodot:
  assumes "CHR ''/'' \<notin> set f" "CHR ''.'' \<notin> set f"
  shows "splitext f = (f, [])"
  using assms by (simp add: splitext_def rfind_absent)

lemma splitext_lastdot:
  assumes "CHR ''/'' \<notin> set (a @ CHR ''.'' # b)" and b: "CHR ''.'' \<notin> set b"
  shows "splitext (a @ CHR ''.'' # b) =
     (if \<forall>c\<in>set a. c = CHR ''.'' then (a @ CHR ''.'' # b, []) else (a, CHR ''.'' # b))"
proof -
  have sep: "rfind (a @ CHR ''.'' # b) CHR ''/'' = - 1" using assms(1) by (rule rfind_absent)
  have dot: "rfind (a @ CHR ''.'' # b) CHR ''.'' = int (length a)" using b by (rule rfind_last)
  have "splitext (a @ CHR ''.'' # b) = skip_leading_dots (a @ CHR ''.'' # b) 0 (int (length a))"
    unfolding splitext_def sep dot by simp
  then show ?thesis
    by (simp add: skip_leading_dots_char)
qed

lemma dropWhile_dots_no_dot: "CHR ''.'' \<notin> set f \<Longrightarrow> CHR ''.'' \<notin> set (dropWhile (\<lambda>c. c = CHR ''.'') f)"
  by (auto dest: set_dropWhileD)

lemma splitext_lastdot_spec:
  assumes nosep: "CHR ''/'' \<notin> set (a @ CHR ''.'' # b)" and  b: "CHR ''.'' \<notin> set b"
  shows "snd (splitext (a @ CHR ''.'' # b)) =
     (if CHR ''.'' \<in> set (dropWhile (\<lambda>c. c = CHR ''.'') (a @ CHR ''.'' # b))
      then extension_spec (a @ CHR ''.'' # b) else [])"
proof -
  note s = splitext_lastdot [OF nosep b]
  note d = dropWhile_dots_has_dot [OF b, of a]
  note e = extension_spec_last [OF b, of a]
  show ?thesis unfolding s d e by (cases "\<forall>c\<in>set a. c = CHR ''.''") simp_all
qed

lemma splitext_filename:
  assumes nosep: "CHR ''/'' \<notin> set f"
  shows "snd (splitext f) =
     (if CHR ''.'' \<in> set (dropWhile (\<lambda>c. c = CHR ''.'') f) then extension_spec f else [])"
proof (cases "CHR ''.'' \<in> set f")
  case False
  then have "CHR ''.'' \<notin> set (dropWhile (\<lambda>c. c = CHR ''.'') f)"
    by (rule dropWhile_dots_no_dot)
  moreover have "splitext f = (f, [])"
    using nosep False by (rule splitext_nodot)
  ultimately show ?thesis by simp
next
  case True
  from split_last_occurrence [OF True]
  obtain a b where eq: "f = a @ CHR ''.'' # b" and b: "CHR ''.'' \<notin> set b"
    by auto
  from nosep have "CHR ''/'' \<notin> set (a @ CHR ''.'' # b)" unfolding eq .
  from splitext_lastdot_spec [OF this b] show ?thesis unfolding eq .
qed

section \<open>Facts about the loop of the handler\<close>

text \<open>
  When the timestamp of every entry can be read and formatted, the loop appends one
  dictionary per entry that \<^verbatim>\<open>isfile\<close> accepts, in the order of enumeration, and calls
  \<^verbatim>\<open>getctime\<close> and then \<^verbatim>\<open>isfile\<close> on every entry. When some timestamp cannot be
  read or formatted, the loop raises. The calls made so far are never forgotten.
\<close>

lemma list_loop_all_ok:
  "\<forall>f\<in>set names. \<exists>t. entry_time fs (d @ f) = Inr t \<Longrightarrow>
   list_loop fs d names acc tr =
     (Inr (acc @ map (\<lambda>f. file_entry f (projr (entry_time fs (d @ f))))
                   (filter (\<lambda>f. isfile fs (d @ f)) names)),
      tr @ concat (map (\<lambda>f. [Getctime (d @ f), Isfile (d @ f)]) names))"
proof (induction names arbitrary: acc tr)
  case Nil
  then show ?case by simp
next
  case (Cons f rest)
  from Cons.prems obtain t where t: "entry_time fs (d @ f) = Inr t" by auto
  from Cons.prems have rest: "\<forall>g\<in>set rest. \<exists>t. entry_time fs (d @ g) = Inr t" by simp
  show ?case
    by (simp add: t Cons.IH [OF rest])
qed

lemma list_loop_some_fails:
  "\<exists>f\<in>set names. \<exists>e. entry_time fs (d @ f) = Inl e \<Longrightarrow>
   \<exists>e. fst (list_loop fs d names acc tr) = Inl e"
proof (induction names arbitrary: acc tr)
  case Nil
  then show ?case by simp
next
  case (Cons f rest)
  show ?case
  proof (cases "entry_time fs (d @ f)")
    case (Inl e)
    then show ?thesis by simp
  next
    case (Inr t)
    with Cons.prems have "\<exists>g\<in>set rest. \<exists>e. entry_time fs (d @ g) = Inl e" by auto
    from Cons.IH [OF this] show ?thesis by (simp add: Inr)
  qed
qed

lemma list_loop_calls_extend:
  "\<exists>more. snd (list_loop fs d names acc tr) = tr @ more"
proof (induction names arbitrary: acc tr)
  case Nil
  then show ?case by simp
next
  case (Cons f rest)
  show ?case
  proof (cases "entry_time fs (d @ f)")
    case (Inl e)
    then show ?thesis by simp
  next
    case (Inr t)
    from Cons.IH [of "acc @ [file_entry f t]" "tr @ [Getctime (d @ f), Isfile (d @ f)]"]
      Cons.IH [of acc "tr @ [Getctime (d @ f), Isfile (d @ f)]"]
    show ?thesis by (auto simp add: Inr)
  qed
qed

section \<open>Facts about the handler\<close>

text \<open>
  A request that returns has read and formatted the timestamp of every entry of the
  directory; then its result and its calls to the filesystem are known in full. A
  request that meets one entry whose timestamp cannot be read or formatted raises.
\<close>

lemma list_loop_Inr_all_ok:
  assumes "fst (list_loop fs d names acc tr) = Inr out"
  shows "\<forall>f\<in>set names. \<exists>t. entry_time fs (d @ f) = Inr t"
proof (rule ccontr)
  assume "\<not> (\<forall>f\<in>set names. \<exists>t. entry_time fs (d @ f) = Inr t)"
  then obtain f where f: "f \<in> set names" and no: "\<forall>t. entry_time fs (d @ f) \<noteq> Inr t"
    by auto
  from no obtain e where "entry_time fs (d @ f) = Inl e"
    by (cases "entry_time fs (d @ f)") auto
  with f have "\<exists>f\<in>set names. \<exists>e. entry_time fs (d @ f) = Inl e" by auto
  from list_loop_some_fails [OF this, of acc tr] assms show False by auto
qed

lemma get_all_ok:
  assumes dsep: "directory_with_sep (getenv env ''DIRECTORY'' ''./'') = Inr d"
    and ls: "os_listdir fs d = Inr names"
    and ok: "\<forall>f\<in>set names. \<exists>t. entry_time fs (d @ f) = Inr t"
  shows "get env fs =
     (Inr (\<lparr>data = map (\<lambda>f. file_entry f (projr (entry_time fs (d @ f))))
                      (filter (\<lambda>f. isfile fs (d @ f)) names)\<rparr>, 200),
      Listdir d # concat (map (\<lambda>f. [Getctime (d @ f), Isfile (d @ f)]) names))"
  by (simp add: get_def dsep ls list_loop_all_ok [OF ok])

lemma get_some_fails:
  assumes dsep: "directory_with_sep (getenv env ''DIRECTORY'' ''./'') = Inr d"
    and ls: "os_listdir fs d = Inr names"
    and bad: "\<exists>f\<in>set names. \<exists>e. entry_time fs (d @ f) = Inl e"
  shows "\<exists>e. fst (get env fs) = Inl e"
proof -
  from list_loop_some_fails [OF bad, of "[]" "[Listdir d]"]
  obtain e where "fst (list_loop fs d names [] [Listdir d]) = Inl e" by auto
  then show ?thesis
    by (cases "list_loop fs d names [] [Listdir d]") (simp add: get_def dsep ls)
qed

lemma get_Inr_cases:
  assumes "fst (get env fs) = Inr (resp, status)"
  shows "\<exists>d names. directory_with_sep (getenv env ''DIRECTORY'' ''./'') = Inr d \<and>
           os_listdir fs d = Inr names \<and>
           (\<forall>f\<in>set names. \<exists>t. entry_time fs (d @ f) = Inr t)"
proof (cases "directory_with_sep (getenv env ''DIRECTORY'' ''./'')")
  case (Inl e)
  with assms show ?thesis by (simp add: get_def)
next
  case dsep: (Inr d)
  show ?thesis
  proof (cases "os_listdir fs d")
    case (Inl e)
    with assms dsep show ?thesis by (simp add: get_def)
  next
    case ls: (Inr names)
    obtain r tr where l: "list_loop fs d names [] [Listdir d] = (r, tr)"
      by (cases "list_loop fs d names [] [Listdir d]")
    with assms dsep ls obtain out where "r = Inr out"
      by (cases r) (simp_all add: get_def)
    with l have "fst (list_loop fs d names [] [Listdir d]) = Inr out" by simp
    from list_loop_Inr_all_ok [OF this] dsep ls show ?thesis by simp
  qed
qed

text \<open>
  The first call of a request is \<^verbatim>\<open>os.listdir\<close> on the directory that lines 14 to 16
  computed; a request that fails on line 15 has touched nothing.
\<close>

lemma get_calls_start:
  "case directory_with_sep (getenv env ''DIRECTORY'' ''./'') of
     Inl e \<Rightarrow> get env fs = (Inl e, [])
   | Inr d \<Rightarrow> (\<exists>more. snd (get env fs) = Listdir d # more)"
proof (cases "directory_with_sep (getenv env ''DIRECTORY'' ''./'')")
  case (Inl e)
  then show ?thesis by (simp add: get_def)
next
  case dsep: (Inr d)
  show ?thesis
  proof (cases "os_listdir fs d")
    case (Inl e)
    with dsep show ?thesis by (simp add: get_def)
  next
    case ls: (Inr names)
    from list_loop_calls_extend [of fs d names "[]" "[Listdir d]"]
    obtain more where m: "snd (list_loop fs d names [] [Listdir d]) = [Listdir d] @ more" by auto
    obtain r tr where l: "list_loop fs d names [] [Listdir d] = (r, tr)"
      by (cases "list_loop fs d names [] [Listdir d]")
    with m have "tr = Listdir d # more" by simp
    with l dsep ls show ?thesis by (cases r) (simp_all add: get_def)
  qed
qed

lemma getenv_singleton: "getenv [k \<mapsto> getenv env k dflt] k dflt = getenv env k dflt"
  by (simp add: getenv_def)

text \<open>
  \<^verbatim>\<open>getctime\<close> and \<^verbatim>\<open>isfile\<close> see a filesystem only through \<^verbatim>\<open>os.stat\<close>.
\<close>

lemma stat_determines_entries:
  assumes "os_stat fs' = os_stat fs"
  shows "entry_time fs' p = entry_time fs p" and "isfile fs' p = isfile fs p"
  using assms by (simp_all add: entry_time_def getctime_def isfile_def)

section \<open>Configuration\<close>

text \<open>
  C6. The debug flag is true exactly when the variable \<^verbatim>\<open>PROJECT_DEBUG\<close> is set in the
  environment the process starts with and its value is the string \<^verbatim>\<open>True\<close>; for every
  other value, and when the variable is unset, the flag is false.
\<close>

theorem Config_DEBUG_iff:
  "DEBUG (snd (Config env)) = (env ''PROJECT_DEBUG'' = Some ''True'')"
  by (cases "env ''PROJECT_DEBUG''") (simp_all add: Config_def environ_get_def)

text \<open>
  C2 says that the class body gives \<^verbatim>\<open>DIRECTORY\<close> its default only when the variable is
  unset, so that a value the process was started with is kept. Line 13 is a plain
  assignment: started with \<^verbatim>\<open>DIRECTORY=/srv/data\<close>, the process holds \<^verbatim>\<open>./\<close> after the
  class body, and the next request enumerates \<^verbatim>\<open>./\<close> and not \<^verbatim>\<open>/srv/data/\<close>. The
  docstring of the class says that its values come from the environment, and the
  handler's own \<^verbatim>\<open>os.getenv("DIRECTORY", "./")\<close> is the default-when-unset the claim
  describes.
\<close>

theorem Config_overwrites_DIRECTORY:
  "fst (Config [''DIRECTORY'' \<mapsto> ''/srv/data'']) ''DIRECTORY'' = Some ''./'' \<and>
   snd (get (fst (Config [''DIRECTORY'' \<mapsto> ''/srv/data''])) fs_home) =
     [Listdir ''./'', Getctime ''./report.tar.gz'', Isfile ''./report.tar.gz'',
      Getctime ''./sub'', Isfile ''./sub'', Getctime ''./README'', Isfile ''./README'']"
  by code_simp

section \<open>The directory a request lists\<close>

text \<open>
  C3, as amended. The configuration object holds the debug flag only; the target
  directory is not stored in it. Every request reads \<^verbatim>\<open>DIRECTORY\<close> from the environment
  as it is at the time of the request (\<^verbatim>\<open>./\<close> when unset): the outcome of a request
  depends on the environment through that one value only, and the first thing a
  request does to the filesystem is to enumerate the directory that value names. So a
  change of \<^verbatim>\<open>DIRECTORY\<close> between two requests changes which directory is listed.
\<close>

theorem get_reads_DIRECTORY_at_request_time:
  "get env fs = get [''DIRECTORY'' \<mapsto> getenv env ''DIRECTORY'' ''./''] fs \<and>
   (case directory_with_sep (getenv env ''DIRECTORY'' ''./'') of
      Inl e \<Rightarrow> get env fs = (Inl e, [])
    | Inr d \<Rightarrow> (\<exists>more. snd (get env fs) = Listdir d # more))"
proof -
  have "get env fs = get [''DIRECTORY'' \<mapsto> getenv env ''DIRECTORY'' ''./''] fs"
    unfolding get_def getenv_singleton ..
  then show ?thesis using get_calls_start [of env fs] by blast
qed

text \<open>
  C3 as stated fails: the process starts with no \<^verbatim>\<open>DIRECTORY\<close>, the first request
  enumerates \<^verbatim>\<open>./\<close>; the variable is then set to \<^verbatim>\<open>/srv/data\<close>, and the second request
  enumerates \<^verbatim>\<open>/srv/data/\<close> and answers differently.
\<close>

theorem DIRECTORY_change_counterexample:
  "hd (snd (get (fst (Config Map.empty)) fs_home)) = Listdir ''./'' \<and>
   hd (snd (get ((fst (Config Map.empty))(''DIRECTORY'' \<mapsto> ''/srv/data'')) fs_home)) = Listdir ''/srv/data/'' \<and>
   fst (get (fst (Config Map.empty)) fs_home) \<noteq>
   fst (get ((fst (Config Map.empty))(''DIRECTORY'' \<mapsto> ''/srv/data'')) fs_home)"
  by code_simp

text \<open>
  C8, as amended. For every non-empty directory path, lines 15 and 16 append a
  separator exactly when the path does not already end in one, and a path without a
  trailing separator is handled as the same path with one: same result, same calls.
\<close>

theorem directory_with_sep_nonempty:
  "d \<noteq> [] \<Longrightarrow>
   directory_with_sep d = Inr (if last d = CHR ''/'' then d else d @ ''/'') \<and>
   (last d \<noteq> CHR ''/'' \<longrightarrow>
      get (env(''DIRECTORY'' \<mapsto> d @ ''/'')) fs = get (env(''DIRECTORY'' \<mapsto> d)) fs)"
  by (simp add: directory_with_sep_def get_def getenv_def)

text \<open>
The amended C8 at \<^verbatim>\<open>/srv/data\<close> and \<^verbatim>\<open>/srv/data/\<close>.
\<close>

theorem directory_with_sep_nonempty_witness:
  "''/srv/data'' \<noteq> [] \<and>
   directory_with_sep ''/srv/data'' = Inr ''/srv/data/'' \<and>
   directory_with_sep ''/srv/data/'' = Inr ''/srv/data/'' \<and>
   last ''/srv/data'' \<noteq> CHR ''/'' \<and>
   get [''DIRECTORY'' \<mapsto> ''/srv/data/''] fs_home = get [''DIRECTORY'' \<mapsto> ''/srv/data''] fs_home"
proof -
  have n: "''/srv/data'' \<noteq> []" and n': "''/srv/data/'' \<noteq> []" by simp_all
  from directory_with_sep_nonempty [OF n, of Map.empty fs_home]
       directory_with_sep_nonempty [OF n', of Map.empty fs_home]
  show ?thesis by simp
qed

text \<open>
  C8 as stated fails at the empty path: it does not end in a separator, and nothing
  is appended, line 15 raises; with the separator the path is \<^verbatim>\<open>/\<close>, which is fine.
\<close>

theorem empty_directory_counterexample:
  "directory_with_sep '''' = Inl IndexError \<and> directory_with_sep ''/'' = Inr ''/''"
  by (simp add: directory_with_sep_def)

text \<open>
  C10. When \<^verbatim>\<open>DIRECTORY\<close> holds the empty string at the time of a request, line 15
  raises \<^verbatim>\<open>IndexError\<close> before any call to the filesystem, and the handler returns no
  response. Lines 15 and 16 raise for the empty path and for no other.
\<close>

theorem get_empty_DIRECTORY_IndexError:
  "get (env(''DIRECTORY'' \<mapsto> [])) fs = (Inl IndexError, []) \<and>
   (directory_with_sep d = Inl IndexError) = (d = [])"
  by (simp add: get_def getenv_def directory_with_sep_def)

section \<open>Requests that fail\<close>

text \<open>
  C1, as amended. When the configured directory does not exist at the time of a
  request, \<^verbatim>\<open>os.listdir\<close> raises \<^verbatim>\<open>FileNotFoundError\<close> and the handler, which catches
  nothing, ends with that exception after this one call: it returns no response of its
  own, neither a 404 nor an empty list with status 200. Which status the client sees
  is left to the web framework.
\<close>

theorem get_missing_directory_raises:
  "directory_with_sep (getenv env ''DIRECTORY'' ''./'') = Inr d \<Longrightarrow>
   os_listdir fs d = Inl FileNotFoundError \<Longrightarrow>
   get env fs = (Inl (OSError FileNotFoundError), [Listdir d])"
  by (simp add: get_def)

text \<open>
The amended C1 with \<^verbatim>\<open>DIRECTORY=/missing\<close>.
\<close>

theorem get_missing_directory_raises_witness:
  "directory_with_sep (getenv [''DIRECTORY'' \<mapsto> ''/missing''] ''DIRECTORY'' ''./'') = Inr ''/missing/'' \<and>
   os_listdir fs_home ''/missing/'' = Inl FileNotFoundError \<and>
   get [''DIRECTORY'' \<mapsto> ''/missing''] fs_home = (Inl (OSError FileNotFoundError), [Listdir ''/missing/''])"
proof -
  have d: "directory_with_sep (getenv [''DIRECTORY'' \<mapsto> ''/missing''] ''DIRECTORY'' ''./'') = Inr ''/missing/''"
    by (simp add: directory_with_sep_def getenv_def)
  have l: "os_listdir fs_home ''/missing/'' = Inl FileNotFoundError"
    by (simp add: fs_home_def fs_of_def)
  from get_missing_directory_raises [OF d l] d l show ?thesis by simp
qed

text \<open>
  C1 as stated fails: the directory \<^verbatim>\<open>/missing/\<close> does not exist, and the handler ends
  in the exception instead of returning a response with an error status.
\<close>

theorem get_missing_directory_counterexample:
  "os_listdir fs_home ''/missing/'' = Inl FileNotFoundError \<and>
   fst (get [''DIRECTORY'' \<mapsto> ''/missing''] fs_home) = Inl (OSError FileNotFoundError)"
  by code_simp

text \<open>
  C5 says that an entry is first tested for being a regular file and its timestamp is
  read only if it is one, so that an entry that is not a file never has its timestamp
  read and a dangling symbolic link does not make the listing fail. Line 18 stands
  before the test of line 20: the timestamp of the subdirectory \<^verbatim>\<open>sub\<close> is read, and
  on the dangling link \<^verbatim>\<open>ghost\<close> the call to \<^verbatim>\<open>getctime\<close> raises, before any
  \<^verbatim>\<open>isfile\<close> on it, and ends the request.
\<close>

theorem get_reads_ctime_before_isfile:
  "\<not> isfile fs_home ''./sub'' \<and>
   Getctime ''./sub'' \<in> set (snd (get Map.empty fs_home)) \<and>
   \<not> isfile fs_dangling ''./ghost'' \<and>
   get Map.empty fs_dangling =
     (Inl (OSError FileNotFoundError),
      [Listdir ''./'', Getctime ''./a.txt'', Isfile ''./a.txt'', Getctime ''./ghost''])"
  by code_simp

text \<open>
  C7 says that for every readable directory the data holds exactly one entry per
  regular file. The directory of \<open>fs_dangling\<close> is readable and holds one regular
  file, \<^verbatim>\<open>a.txt\<close>, beside a dangling link; the request ends in
  \<^verbatim>\<open>FileNotFoundError\<close> and returns no data at all. (When the timestamp of every entry
  can be read, the data is one entry per regular file, in enumeration order: that is
  \<open>get_all_ok\<close>.)
\<close>

theorem get_dangling_symlink_no_data:
  "os_listdir fs_dangling ''./'' = Inr [''a.txt'', ''ghost''] \<and>
   filter (\<lambda>f. isfile fs_dangling (''./'' @ f)) [''a.txt'', ''ghost''] = [''a.txt''] \<and>
   fst (get Map.empty fs_dangling) = Inl (OSError FileNotFoundError)"
  by code_simp

section \<open>The entries of a response\<close>

text \<open>
  C4, as amended. For every file name (a name holds no separator) in the data of a
  response, the field \<open>type\<close> is the substring of the name from its last period on
  when some character before that period is not a period, that is, when a period is left
  once the leading periods are dropped; otherwise it is the empty string. So it is
  empty for a name without a period and for a name such as \<^verbatim>\<open>.bashrc\<close>, whose only
  periods lead; \<^verbatim>\<open>report.tar.gz\<close> yields \<^verbatim>\<open>.gz\<close> and \<^verbatim>\<open>README\<close> yields the empty
  string.
\<close>

theorem get_entry_type:
  assumes "fst (get env fs) = Inr (resp, status)"
    and "e \<in> set (data resp)"
    and "CHR ''/'' \<notin> set (name e)"
  shows "type e =
     (if CHR ''.'' \<in> set (dropWhile (\<lambda>c. c = CHR ''.'') (name e))
      then extension_spec (name e) else [])"
proof -
  from get_Inr_cases [OF assms(1)] obtain d names where
    dsep: "directory_with_sep (getenv env ''DIRECTORY'' ''./'') = Inr d" and
    ls: "os_listdir fs d = Inr names" and
    ok: "\<forall>f\<in>set names. \<exists>t. entry_time fs (d @ f) = Inr t"
    by blast
  from get_all_ok [OF dsep ls ok] assms(1)
  have "data resp = map (\<lambda>f. file_entry f (projr (entry_time fs (d @ f))))
                      (filter (\<lambda>f. isfile fs (d @ f)) names)"
    by auto
  with assms(2) obtain f t where e: "e = file_entry f t" by auto
  then have "name e = f" and "type e = snd (splitext f)" by (simp_all add: file_entry_def)
  with assms(3) splitext_filename [of f] show ?thesis by simp
qed

text \<open>
The amended C4 on the two entries of the working directory of \<open>fs_home\<close>.
\<close>

theorem get_entry_type_witness:
  "fst (get Map.empty fs_home) =
     Inr (\<lparr>data = [\<lparr>name = ''report.tar.gz'', type = ''.gz'', time = ''2023-11-14 22:13:20''\<rparr>,
                    \<lparr>name = ''README'', type = [], time = ''1970-01-01 00:00:00''\<rparr>]\<rparr>, 200) \<and>
   CHR ''.'' \<in> set (dropWhile (\<lambda>c. c = CHR ''.'') ''report.tar.gz'') \<and>
   extension_spec ''report.tar.gz'' = ''.gz'' \<and>
   CHR ''.'' \<notin> set (dropWhile (\<lambda>c. c = CHR ''.'') ''README'') \<and>
   type \<lparr>name = ''report.tar.gz'', type = ''.gz'', time = ''2023-11-14 22:13:20''\<rparr> =
     extension_spec ''report.tar.gz'' \<and>
   type \<lparr>name = ''README'', type = [], time = ''1970-01-01 00:00:00''\<rparr> = []"
proof -
  let ?e = "\<lparr>name = ''report.tar.gz'', type = ''.gz'', time = ''2023-11-14 22:13:20''\<rparr>"
  let ?e' = "\<lparr>name = ''README'', type = [], time = ''1970-01-01 00:00:00''\<rparr>"
  let ?r = "\<lparr>data = [?e, ?e']\<rparr>"
  have g: "fst (get Map.empty fs_home) = Inr (?r, 200)" by code_simp
  have m: "?e \<in> set (data ?r)" and m': "?e' \<in> set (data ?r)" by simp_all
  have s: "CHR ''/'' \<notin> set (name ?e)" and s': "CHR ''/'' \<notin> set (name ?e')" by simp_all
  have x: "extension_spec ''report.tar.gz'' = ''.gz''" by code_simp
  have dd: "CHR ''.'' \<in> set (dropWhile (\<lambda>c. c = CHR ''.'') ''report.tar.gz'')"
    and dd': "CHR ''.'' \<notin> set (dropWhile (\<lambda>c. c = CHR ''.'') ''README'')" by simp_all
  from get_entry_type [OF g m s] get_entry_type [OF g m' s'] g x dd dd'
  show ?thesis by simp
qed

text \<open>
  C4 as stated fails on a dotfile: \<^verbatim>\<open>.bashrc\<close> begins at its last period, and its
  \<open>type\<close> is empty.
\<close>

theorem dotfile_type_counterexample:
  "fst (get Map.empty fs_dotfile) =
     Inr (\<lparr>data = [\<lparr>name = ''.bashrc'', type = '''', time = ''1970-01-01 00:00:00''\<rparr>]\<rparr>, 200) \<and>
   extension_spec ''.bashrc'' = ''.bashrc''"
  by code_simp

text \<open>
  C9. The handler writes neither the environment nor the filesystem, so two requests in
  a row meet the same environment, the same answers of \<^verbatim>\<open>os.stat\<close> and the same
  names in every directory, possibly enumerated in another order. Then both requests
  raise, or both return, with the same status and the same entries up to order
  (\<open>rel_sum\<close> relates two exceptions, or two returned pairs with equal status and
  equal multisets of entries). With the same order the two outcomes are equal, the handler
  being a function.
\<close>

theorem get_same_data_any_order:
  assumes st: "os_stat fs' = os_stat fs"
    and ls: "\<forall>p. rel_sum (=) (\<lambda>ns ns'. mset ns = mset ns') (os_listdir fs p) (os_listdir fs' p)"
  shows "rel_sum (\<lambda>e e'. True) (\<lambda>(r, s) (r', s'). s = s' \<and> mset (data r) = mset (data r'))
           (fst (get env fs)) (fst (get env fs'))"
proof (cases "directory_with_sep (getenv env ''DIRECTORY'' ''./'')")
  case (Inl e)
  then show ?thesis by (simp add: get_def)
next
  case dsep: (Inr d)
  from ls have rel: "rel_sum (=) (\<lambda>ns ns'. mset ns = mset ns') (os_listdir fs d) (os_listdir fs' d)"
    by blast
  show ?thesis
  proof (cases "os_listdir fs d")
    case (Inl e)
    with rel have "os_listdir fs' d = Inl e" by (cases "os_listdir fs' d") simp_all
    with Inl dsep show ?thesis by (simp add: get_def)
  next
    case l: (Inr names)
    with rel obtain names' where l': "os_listdir fs' d = Inr names'" and m: "mset names = mset names'"
      by (cases "os_listdir fs' d") simp_all
    from m have s: "set names' = set names" by (metis set_mset_mset)
    show ?thesis
    proof (cases "\<forall>f\<in>set names. \<exists>t. entry_time fs (d @ f) = Inr t")
      case True
      then have ok': "\<forall>f\<in>set names'. \<exists>t. entry_time fs' (d @ f) = Inr t"
        by (simp add: s stat_determines_entries [OF st])
      have "mset (map (\<lambda>f. file_entry f (projr (entry_time fs (d @ f))))
                   (filter (\<lambda>f. isfile fs (d @ f)) names)) =
            mset (map (\<lambda>f. file_entry f (projr (entry_time fs (d @ f))))
                   (filter (\<lambda>f. isfile fs (d @ f)) names'))"
        by (simp add: m)
      then show ?thesis
        by (simp add: get_all_ok [OF dsep l True] get_all_ok [OF dsep l' ok']
              stat_determines_entries [OF st])
    next
      case False
      then obtain f where f: "f \<in> set names" and no: "\<forall>t. entry_time fs (d @ f) \<noteq> Inr t"
        by auto
      from no obtain e where e: "entry_time fs (d @ f) = Inl e"
        by (cases "entry_time fs (d @ f)") auto
      from f e have bad: "\<exists>f\<in>set names. \<exists>e. entry_time fs (d @ f) = Inl e" by auto
      from f e have bad': "\<exists>f\<in>set names'. \<exists>e. entry_time fs' (d @ f) = Inl e"
        by (auto simp add: s stat_determines_entries [OF st])
      from get_some_fails [OF dsep l bad] get_some_fails [OF dsep l' bad']
      show ?thesis by auto
    qed
  qed
qed

text \<open>
C9 on the working directory of \<open>fs_home\<close>, enumerated in two orders.
\<close>

theorem get_same_data_any_order_witness:
  "os_stat fs_home_reordered = os_stat fs_home \<and>
   os_listdir fs_home ''./'' = Inr [''report.tar.gz'', ''sub'', ''README''] \<and>
   os_listdir fs_home_reordered ''./'' = Inr [''README'', ''report.tar.gz'', ''sub''] \<and>
   set (data (fst (projr (fst (get Map.empty fs_home))))) =
   set (data (fst (projr (fst (get Map.empty fs_home_reordered))))) \<and>
   snd (projr (fst (get Map.empty fs_home))) = snd (projr (fst (get Map.empty fs_home_reordered)))"
proof -
  have st: "os_stat fs_home_reordered = os_stat fs_home"
    by (simp add: fs_home_def fs_home_reordered_def fs_of_def)
  have l: "os_listdir fs_home ''./'' = Inr [''report.tar.gz'', ''sub'', ''README'']"
    and l': "os_listdir fs_home_reordered ''./'' = Inr [''README'', ''report.tar.gz'', ''sub'']"
    by (simp_all add: fs_home_def fs_home_reordered_def fs_of_def)
  have ls: "\<forall>p. rel_sum (=) (\<lambda>ns ns'. mset ns = mset ns')
               (os_listdir fs_home p) (os_listdir fs_home_reordered p)"
    by (simp add: fs_home_def fs_home_reordered_def fs_of_def)
  have g: "fst (get Map.empty fs_home) =
     Inr (\<lparr>data = [\<lparr>name = ''report.tar.gz'', type = ''.gz'', time = ''2023-11-14 22:13:20''\<rparr>,
                    \<lparr>name = ''README'', type = '''', time = ''1970-01-01 00:00:00''\<rparr>]\<rparr>, 200)"
    by code_simp
  obtain r' s' where g': "fst (get Map.empty fs_home_reordered) = Inr (r', s')"
    using get_same_data_any_order [OF st ls, of Map.empty] g
    by (cases "fst (get Map.empty fs_home_reordered)") auto
  from get_same_data_any_order [OF st ls, of Map.empty] g g'
  have "s' = 200" and "mset (data r') =
     mset [\<lparr>name = ''report.tar.gz'', type = ''.gz'', time = ''2023-11-14 22:13:20''\<rparr>,
           \<lparr>name = ''README'', type = '''', time = ''1970-01-01 00:00:00''\<rparr>]"
    by simp_all
  then have "s' = 200" and "set (data r') =
     set [\<lparr>name = ''report.tar.gz'', type = ''.gz'', time = ''2023-11-14 22:13:20''\<rparr>,
          \<lparr>name = ''README'', type = '''', time = ''1970-01-01 00:00:00''\<rparr>]"
    by (simp, metis set_mset_mset)
  with st l l' g g' show ?thesis by simp
qed

end
